theory Spec2Isabelle
  imports Complex_Main "HOL-Library.AList" "HOL-Library.Multiset"
begin

section \<open>JavaScript values used by \<open>create_interactive_heatmap.js\<close>\<close>

text \<open>
  Strings are sequences of code units; the model covers the code units below 256, so a
  string is a \<open>char list\<close>. A Number that holds an integer is the \<open>int\<close> it holds;
  \<open>parseInt\<close> and every addition round their result to the nearest binary64 number
  (\<open>to_double\<close> below), so values up to \<open>2^53\<close> in magnitude are exact and larger ones
  keep 53 significant bits. The exponent range is not modelled: where the program has
  \<open>Infinity\<close>, from \<open>2^1024\<close> on, the model has a rounded integer.
  \<open>NaN\<close> is kept apart, because \<open>sum + undefined\<close> and \<open>parseInt\<close> produce it.
\<close>

datatype jsnum = Num int | NaN

text \<open>An array slot of the matrix: a number, or \<open>undefined\<close> (what an out-of-range read gives).\<close>

datatype cell = Val int | Undefined

datatype js_error = TypeError

text \<open>The result of a division: a finite quotient, \<open>NaN\<close> or an infinity.\<close>

datatype jsreal = Fin rat | RNaN | PosInf | NegInf

subsection \<open>Rounding to binary64\<close>

text \<open>
  The number of low bits a magnitude loses when it is cut to 53 significant bits: the
  least \<open>e\<close> with \<open>m div 2^e < 2^53\<close>.
\<close>

function shift_of :: "int \<Rightarrow> nat" where
  "shift_of m = (if m < 9007199254740992 then 0 else Suc (shift_of (m div 2)))"
  by pat_completeness auto
termination
  by (relation "measure nat") auto

declare shift_of.simps [simp del]

text \<open>
  The nearest integer with 53 significant bits, the one with an even last bit at a tie.
  Integers up to \<open>2^53 = 9007199254740992\<close> in magnitude are such numbers already.
\<close>

definition to_double :: "int \<Rightarrow> int" where
  "to_double n =
     (if \<bar>n\<bar> \<le> 9007199254740992 then n
      else (let m = \<bar>n\<bar>;
                e = shift_of m;
                q = m div 2 ^ e;
                r = m mod 2 ^ e;
                q' = (if 2 ^ e < 2 * r \<or> (2 * r = 2 ^ e \<and> odd q) then q + 1 else q)
            in sgn n * (q' * 2 ^ e)))"

subsection \<open>String primitives: \<open>trim\<close>, \<open>split\<close>, \<open>parseInt\<close>\<close>

text \<open>White space and line terminators among the code units below 256.\<close>

definition is_js_space :: "char \<Rightarrow> bool" where
  "is_js_space c =
     (c \<in> set [CHR 0x09, CHR 0x0A, CHR 0x0B, CHR 0x0C, CHR 0x0D, CHR 0x20, CHR 0xA0])"

definition js_trim :: "string \<Rightarrow> string" where
  "js_trim s = rev (dropWhile is_js_space (rev (dropWhile is_js_space s)))"

text \<open>
  \<open>s.split(sep)\<close> for a one-character separator: the pieces between the separators;
  the empty string gives one empty piece.
\<close>

fun js_split :: "char \<Rightarrow> string \<Rightarrow> string list" where
  "js_split sep [] = [[]]"
| "js_split sep (c # cs) =
     (if c = sep then [] # js_split sep cs
      else (case js_split sep cs of
              [] \<Rightarrow> [[c]]
            | w # ws \<Rightarrow> (c # w) # ws))"

text \<open>The value of a digit character; letters count from 10, in either case.\<close>

definition digit_of :: "char \<Rightarrow> int option" where
  "digit_of c =
     (let n = (of_char c :: int) in
      if 48 \<le> n \<and> n \<le> 57 then Some (n - 48)
      else if 97 \<le> n \<and> n \<le> 122 then Some (n - 87)
      else if 65 \<le> n \<and> n \<le> 90 then Some (n - 55)
      else None)"

definition is_radix_digit :: "int \<Rightarrow> char \<Rightarrow> bool" where
  "is_radix_digit R c = (case digit_of c of None \<Rightarrow> False | Some d \<Rightarrow> d < R)"

definition digits_value :: "int \<Rightarrow> string \<Rightarrow> int" where
  "digits_value R ds =
     foldl (\<lambda>acc c. acc * R + (case digit_of c of None \<Rightarrow> 0 | Some d \<Rightarrow> d)) 0 ds"

text \<open>
  \<open>parseInt(s)\<close> without a radix: leading white space is skipped, a sign is read, a
  \<open>0x\<close> or \<open>0X\<close> prefix switches to radix 16, and the longest run of digits is the
  value, signed and rounded to a Number; no digit at all gives \<open>NaN\<close>. (For more than
  20 significant decimal digits the language lets an implementation round the digits
  first; the model rounds the exact value.)
\<close>

definition parseInt :: "string \<Rightarrow> jsnum" where
  "parseInt s =
     (let S = dropWhile is_js_space s;
          sign = (case S of c # _ \<Rightarrow> if c = CHR ''-'' then (-1::int) else 1 | [] \<Rightarrow> 1);
          S1 = (case S of c # r \<Rightarrow> if c = CHR ''-'' \<or> c = CHR ''+'' then r else S | [] \<Rightarrow> S);
          hex = (case S1 of a # b # _ \<Rightarrow> a = CHR ''0'' \<and> (b = CHR ''x'' \<or> b = CHR ''X'') | _ \<Rightarrow> False);
          R = (if hex then 16 else 10);
          S2 = (if hex then drop 2 S1 else S1);
          Z = takeWhile (is_radix_digit R) S2
      in if Z = [] then NaN else Num (to_double (sign * digits_value R Z)))"

text \<open>\<open>parseInt(v) || 0\<close>: \<open>NaN\<close> and zero are falsy.\<close>

definition cell_value :: "string \<Rightarrow> int" where
  "cell_value v = (case parseInt v of NaN \<Rightarrow> 0 | Num n \<Rightarrow> if n = 0 then 0 else n)"

subsection \<open>Array reads and \<open>indexOf\<close>\<close>

text \<open>\<open>row[i]\<close>: \<open>undefined\<close> outside the array.\<close>

definition row_at :: "cell list \<Rightarrow> int \<Rightarrow> cell" where
  "row_at row i = (if 0 \<le> i \<and> i < int (length row) then row ! nat i else Undefined)"

text \<open>\<open>xs.indexOf(x)\<close>: the first position of \<open>x\<close>, or \<open>-1\<close>.\<close>

fun js_indexOf :: "'a list \<Rightarrow> 'a \<Rightarrow> int" where
  "js_indexOf [] x = -1"
| "js_indexOf (y # ys) x =
     (if y = x then 0 else (let i = js_indexOf ys x in if i < 0 then -1 else i + 1))"

text \<open>
  \<open>sum + row[index]\<close>: the rounded sum of two numbers; adding \<open>undefined\<close> or to \<open>NaN\<close>
  gives \<open>NaN\<close>.
\<close>

fun add_cell :: "jsnum \<Rightarrow> cell \<Rightarrow> jsnum" where
  "add_cell (Num a) (Val b) = Num (to_double (a + b))"
| "add_cell _ _ = NaN"

fun js_add :: "jsnum \<Rightarrow> jsnum \<Rightarrow> jsnum" where
  "js_add (Num a) (Num b) = Num (to_double (a + b))"
| "js_add _ _ = NaN"

subsection \<open>Objects with string keys\<close>

text \<open>
  An object is the list of its own properties in creation order. Assigning to an
  existing key keeps its place; a new key goes to the end. Assigning a number to
  \<open>__proto__\<close> calls the inherited setter, which ignores it: no property is made.
\<close>

type_synonym jsobject = "(string \<times> jsnum) list"

definition obj_set :: "jsobject \<Rightarrow> string \<Rightarrow> jsnum \<Rightarrow> jsobject" where
  "obj_set obj k v = (if k = ''__proto__'' then obj else AList.update k v obj)"

text \<open>
  A key is an array index when it is the canonical decimal text of an integer up to
  \<open>2^32 - 2\<close>. \<open>Object.entries\<close> lists those keys first, in ascending numeric order, and
  then the other keys in creation order.
\<close>

definition is_array_index :: "string \<Rightarrow> bool" where
  "is_array_index k =
     (case k of
        [] \<Rightarrow> False
      | c # cs \<Rightarrow>
          list_all (is_radix_digit 10) k \<and> (if c = CHR ''0'' then cs = [] else True)
          \<and> digits_value 10 k \<le> 4294967294)"

definition object_entries :: "jsobject \<Rightarrow> (string \<times> jsnum) list" where
  "object_entries obj =
     sort_key (\<lambda>(k, v). digits_value 10 k) (filter (\<lambda>(k, v). is_array_index k) obj)
     @ filter (\<lambda>(k, v). \<not> is_array_index k) obj"

subsection \<open>\<open>Array.prototype.sort\<close> with a comparison function\<close>

text \<open>
  The sort is stable: an element moves in front of another only when the comparison
  function gives a positive number for the pair in input order. A \<open>NaN\<close> result counts
  as 0. With \<open>NaN\<close> among the scores the comparison is not consistent and the language
  leaves the order to the implementation; the model then gives the order of an
  insertion sort.
\<close>

fun insert_by :: "('a \<Rightarrow> 'a \<Rightarrow> jsnum) \<Rightarrow> 'a \<Rightarrow> 'a list \<Rightarrow> 'a list" where
  "insert_by cmp x [] = [x]"
| "insert_by cmp x (y # ys) =
     (case cmp x y of
        NaN \<Rightarrow> x # y # ys
      | Num d \<Rightarrow> if d \<le> 0 then x # y # ys else y # insert_by cmp x ys)"

definition js_sort :: "('a \<Rightarrow> 'a \<Rightarrow> jsnum) \<Rightarrow> 'a list \<Rightarrow> 'a list" where
  "js_sort cmp xs = foldr (insert_by cmp) xs []"

text \<open>
  \<open>a - b\<close> on numbers. The sort uses the sign of the difference only, and the rounded
  difference of two numbers has the sign of the exact one, so the exact one is kept.
\<close>

fun js_sub :: "jsnum \<Rightarrow> jsnum \<Rightarrow> jsnum" where
  "js_sub (Num a) (Num b) = Num (a - b)"
| "js_sub _ _ = NaN"

section \<open>\<open>parseCSV\<close>\<close>

record parsed =
  data :: "cell list list"
  challengeLabels :: "string list"
  candidateCols :: "string list"

definition reserved_cols :: "string list" where
  "reserved_cols = [''Challenge'', ''Created_At'', ''Difficulty'']"

text \<open>\<open>headers.filter(col => !['Challenge', 'Created_At', 'Difficulty'].includes(col))\<close>\<close>

definition candidate_columns :: "string list \<Rightarrow> string list" where
  "candidate_columns headers = filter (\<lambda>col. col \<notin> set reserved_cols) headers"

text \<open>The inner loop: \<open>for (let j = 3; j < values.length; j++) row.push(parseInt(values[j]) || 0)\<close>.\<close>

definition parse_row :: "string list \<Rightarrow> cell list" where
  "parse_row values = map (\<lambda>v. Val (cell_value v)) (drop 3 values)"

text \<open>
  \<open>lines[0].split(',')\<close> would raise a \<open>TypeError\<close> on an empty \<open>lines\<close>; every other
  step is total. \<open>values[0]\<close> exists because \<open>split\<close> gives at least one piece.
\<close>

definition parseCSV :: "string \<Rightarrow> js_error + parsed" where
  "parseCSV csvContent =
     (let lines = js_split (CHR 0x0A) (js_trim csvContent) in
      case lines of
        [] \<Rightarrow> Inl TypeError
      | header # rest \<Rightarrow>
          (let headers = js_split (CHR '','') header;
               candidateCols = candidate_columns headers;
               valuess = map (js_split (CHR '','')) rest
           in Inr \<lparr> data = map parse_row valuess,
                    challengeLabels = map hd valuess,
                    candidateCols = candidateCols \<rparr>))"

section \<open>\<open>sortCandidatesByPerformance\<close>\<close>

record ranked =
  sortedData :: "cell list list"
  sortedCandidates :: "string list"
  candidateSums :: jsobject

text \<open>\<open>data.reduce((sum, row) => sum + row[index], 0)\<close>\<close>

definition column_sum :: "cell list list \<Rightarrow> int \<Rightarrow> jsnum" where
  "column_sum dat index = foldl (\<lambda>sum row. add_cell sum (row_at row index)) (Num 0) dat"

text \<open>The \<open>forEach\<close> over the candidates with their positions, filling the score object.\<close>

definition candidate_sums :: "cell list list \<Rightarrow> string list \<Rightarrow> jsobject" where
  "candidate_sums dat cols =
     foldl (\<lambda>obj (index, candidate). obj_set obj candidate (column_sum dat (int index)))
       [] (zip [0..<length cols] cols)"

definition sorted_candidates :: "jsobject \<Rightarrow> string list" where
  "sorted_candidates csums =
     map fst (js_sort (\<lambda>x y. js_sub (snd x) (snd y)) (object_entries csums))"

definition reorder_row :: "string list \<Rightarrow> string list \<Rightarrow> cell list \<Rightarrow> cell list" where
  "reorder_row cols srt row =
     map (\<lambda>candidate. row_at row (js_indexOf cols candidate)) srt"

definition sortCandidatesByPerformance :: "cell list list \<Rightarrow> string list \<Rightarrow> ranked" where
  "sortCandidatesByPerformance dat cols =
     (let csums = candidate_sums dat cols;
          srt = sorted_candidates csums
      in \<lparr> sortedData = map (reorder_row cols srt) dat,
           sortedCandidates = srt,
           candidateSums = csums \<rparr>)"

section \<open>The statistics of \<open>main\<close> and \<open>generateHTML\<close>\<close>

text \<open>\<open>Object.values(candidateSums).reduce((sum, val) => sum + val, 0)\<close>\<close>

definition total_solutions :: "jsobject \<Rightarrow> jsnum" where
  "total_solutions csums = foldl js_add (Num 0) (map snd (object_entries csums))"

text \<open>
  \<open>totalSolutions / (totalChallenges * totalCandidates) * 100\<close>. A zero divisor gives
  \<open>NaN\<close> for \<open>0 / 0\<close> and an infinity otherwise. The finite quotient is kept exact here,
  where the program rounds it to a binary64 value.
\<close>

definition success_rate :: "jsnum \<Rightarrow> nat \<Rightarrow> nat \<Rightarrow> jsreal" where
  "success_rate totalSolutions totalChallenges totalCandidates =
     (case totalSolutions of
        NaN \<Rightarrow> RNaN
      | Num s \<Rightarrow>
          if totalChallenges * totalCandidates = 0
          then (if s = 0 then RNaN else if 0 < s then PosInf else NegInf)
          else Fin (of_int s / of_nat (totalChallenges * totalCandidates) * 100))"

fun decimal :: "nat \<Rightarrow> string" where
  "decimal n =
     (if n < 10 then [char_of (48 + n)]
      else decimal (n div 10) @ [char_of (48 + n mod 10)])"

declare decimal.simps [simp del]

text \<open>
  \<open>x.toFixed(1)\<close>: the nearest multiple of one tenth, the larger one at a tie, written
  with one digit after the point. From \<open>10^21\<close> on the program writes the exponent
  form of the number, which the model leaves out (\<open>None\<close>).
\<close>

definition toFixed1 :: "jsreal \<Rightarrow> string option" where
  "toFixed1 x =
     (case x of
        RNaN \<Rightarrow> Some ''NaN''
      | PosInf \<Rightarrow> Some ''Infinity''
      | NegInf \<Rightarrow> Some ''-Infinity''
      | Fin q \<Rightarrow>
          if 10 ^ 21 \<le> \<bar>q\<bar> then None
          else (let n = nat \<lfloor>\<bar>q\<bar> * 10 + 1 / 2\<rfloor>
                in Some ((if q < 0 then ''-'' else '''')
                         @ decimal (n div 10) @ ''.'' @ decimal (n mod 10))))"

definition overallSuccessRate :: "jsnum \<Rightarrow> nat \<Rightarrow> nat \<Rightarrow> string option" where
  "overallSuccessRate totalSolutions totalChallenges totalCandidates =
     toFixed1 (success_rate totalSolutions totalChallenges totalCandidates)"

text \<open>
  What \<open>main\<close> hands to \<open>generateHTML\<close>, with the rate text computed there. The
  arguments \<open>challengeLabels\<close>, \<open>candidateCols\<close> and \<open>candidateSums\<close> are the fields
  \<open>rowLabels\<close>, \<open>candidateLabels\<close> and \<open>scores\<close>.
\<close>

record report =
  heatmapData :: "cell list list"
  rowLabels :: "string list"
  candidateLabels :: "string list"
  scores :: jsobject
  totalChallenges :: nat
  totalCandidates :: nat
  totalSolutions :: jsnum
  overallRate :: "string option"

text \<open>The body of \<open>main\<close> between reading the input file and writing the page.\<close>

definition main_report :: "string \<Rightarrow> js_error + report" where
  "main_report csvContent =
     (case parseCSV csvContent of
        Inl e \<Rightarrow> Inl e
      | Inr p \<Rightarrow>
          (let r = sortCandidatesByPerformance (data p) (candidateCols p);
               tch = length (data p);
               tca = length (candidateCols p);
               tso = total_solutions (candidateSums r)
           in Inr \<lparr> heatmapData = sortedData r,
                    rowLabels = challengeLabels p,
                    candidateLabels = sortedCandidates r,
                    scores = candidateSums r,
                    totalChallenges = tch,
                    totalCandidates = tca,
                    totalSolutions = tso,
                    overallRate = overallSuccessRate tso tch tca \<rparr>))"

section \<open>Auxiliary functions for the statements\<close>

text \<open>The number held by a score or a cell, 0 for \<open>NaN\<close> and \<open>undefined\<close>.\<close>

fun num_of :: "jsnum \<Rightarrow> int" where
  "num_of (Num n) = n"
| "num_of NaN = 0"


text \<open>The score a label has in the score object, 0 when the label is no key.\<close>

definition score_of :: "jsobject \<Rightarrow> string \<Rightarrow> int" where
  "score_of obj c = (case map_of obj c of None \<Rightarrow> 0 | Some v \<Rightarrow> num_of v)"

section \<open>Sample inputs\<close>

definition sample_csv :: string where
  "sample_csv =
     ''Challenge,Created_At,Difficulty,A,B,C'' @ [CHR 0x0A] @
     ''x,t,d,1,0,1'' @ [CHR 0x0A] @
     ''y,t,d,0,0,1''"

definition tie_csv :: string where
  "tie_csv = ''Challenge,Created_At,Difficulty,B,A'' @ [CHR 0x0A] @ ''x,t,d,1,1''"


definition ragged_csv :: string where
  "ragged_csv = ''Challenge,Created_At,Difficulty,A,B'' @ [CHR 0x0A] @ ''x,t,d,1''"

definition header_only_csv :: string where
  "header_only_csv = ''Challenge,Created_At,Difficulty,A,B''"




section \<open>Facts about the primitives\<close>

subsection \<open>Rounding\<close>


lemma to_double_zero: "to_double 0 = 0"
  by (simp add: to_double_def)

subsection \<open>The parser is total\<close>

lemma js_split_nonempty: "js_split sep s \<noteq> []"
  by (induction s) (auto split: list.splits)

lemma parseCSV_total: "\<exists>p. parseCSV csv = Inr p"
  using js_split_nonempty[of "CHR 0x0A" "js_trim csv"]
  by (auto simp: parseCSV_def Let_def split: list.splits)

subsection \<open>\<open>indexOf\<close>\<close>

lemma js_indexOf_ge: "- 1 \<le> js_indexOf xs x"
  by (induction xs) (auto simp: Let_def)

lemma js_indexOf_notin: "x \<notin> set xs \<Longrightarrow> js_indexOf xs x = - 1"
  by (induction xs) (auto simp: Let_def)

lemma js_indexOf_in:
  "x \<in> set xs \<Longrightarrow> 0 \<le> js_indexOf xs x \<and> js_indexOf xs x < int (length xs)
     \<and> xs ! nat (js_indexOf xs x) = x"
proof (induction xs)
  case Nil
  then show ?case by simp
next
  case (Cons y ys)
  show ?case
  proof (cases "y = x")
    case True
    then show ?thesis by simp
  next
    case False
    with Cons.prems have "x \<in> set ys" by simp
    from Cons.IH[OF this] False show ?thesis
      by (auto simp: Let_def nat_add_distrib)
  qed
qed

lemma js_indexOf_first:
  "i < length xs \<Longrightarrow> xs ! i = x \<Longrightarrow> (\<forall>k<i. xs ! k \<noteq> x) \<Longrightarrow> js_indexOf xs x = int i"
proof (induction xs arbitrary: i)
  case Nil
  then show ?case by simp
next
  case (Cons y ys)
  show ?case
  proof (cases i)
    case 0
    with Cons.prems show ?thesis by simp
  next
    case (Suc j)
    with Cons.prems have ne: "y \<noteq> x" by auto
    from Suc Cons.prems have "j < length ys" "ys ! j = x" "\<forall>k<j. ys ! k \<noteq> x" by auto
    from Cons.IH[OF this] ne Suc show ?thesis by (simp add: Let_def)
  qed
qed

lemma js_indexOf_distinct:
  "distinct xs \<Longrightarrow> i < length xs \<Longrightarrow> js_indexOf xs (xs ! i) = int i"
  by (rule js_indexOf_first) (auto simp: nth_eq_iff_index_eq)

subsection \<open>The score object\<close>

lemma update_fresh: "k \<notin> fst ` set al \<Longrightarrow> AList.update k v al = al @ [(k, v)]"
  by (induction al) auto

lemma candidate_sums_Nil: "candidate_sums dat [] = []"
  by (simp add: candidate_sums_def)

lemma candidate_sums_snoc:
  "candidate_sums dat (xs @ [x]) =
     obj_set (candidate_sums dat xs) x (column_sum dat (int (length xs)))"
  by (simp add: candidate_sums_def)

lemma candidate_sums_keys:
  "fst ` set (candidate_sums dat cols) = set cols - {''__proto__''}"
  by (induction cols rule: rev_induct)
     (auto simp: candidate_sums_Nil candidate_sums_snoc obj_set_def AList.dom_update)

lemma candidate_sums_distinct: "distinct (map fst (candidate_sums dat cols))"
  by (induction cols rule: rev_induct)
     (auto simp: candidate_sums_Nil candidate_sums_snoc obj_set_def AList.distinct_update)

lemma candidate_sums_last:
  "j < length cols \<Longrightarrow> cols ! j = c \<Longrightarrow> c \<noteq> ''__proto__'' \<Longrightarrow>
   (\<forall>k. j < k \<and> k < length cols \<longrightarrow> cols ! k \<noteq> c) \<Longrightarrow>
   map_of (candidate_sums dat cols) c = Some (column_sum dat (int j))"
proof (induction cols rule: rev_induct)
  case Nil
  then show ?case by simp
next
  case (snoc x xs)
  show ?case
  proof (cases "j = length xs")
    case True
    with snoc.prems show ?thesis
      by (simp add: candidate_sums_snoc obj_set_def AList.update_conv')
  next
    case False
    with snoc.prems have j: "j < length xs" by simp
    with snoc.prems have cj: "xs ! j = c" by (simp add: nth_append)
    from snoc.prems(4) j have "x \<noteq> c"
      by (metis length_append_singleton lessI nth_append_length)
    moreover have "\<forall>k. j < k \<and> k < length xs \<longrightarrow> xs ! k \<noteq> c"
      using snoc.prems(4) by (metis length_append_singleton less_Suc_eq nth_append)
    ultimately show ?thesis
      using snoc.IH[OF j cj snoc.prems(3)]
      by (simp add: candidate_sums_snoc obj_set_def AList.update_conv')
  qed
qed

lemma candidate_sums_plain:
  "distinct cols \<Longrightarrow> ''__proto__'' \<notin> set cols \<Longrightarrow>
   candidate_sums dat cols = map (\<lambda>i. (cols ! i, column_sum dat (int i))) [0..<length cols]"
proof (induction cols rule: rev_induct)
  case Nil
  then show ?case by (simp add: candidate_sums_Nil)
next
  case (snoc x xs)
  then have IH: "candidate_sums dat xs = map (\<lambda>i. (xs ! i, column_sum dat (int i))) [0..<length xs]"
    by simp
  have fresh: "x \<notin> fst ` set (candidate_sums dat xs)"
    using snoc.prems by (simp add: candidate_sums_keys)
  have "map (\<lambda>i. ((xs @ [x]) ! i, column_sum dat (int i))) [0..<length xs]
        = map (\<lambda>i. (xs ! i, column_sum dat (int i))) [0..<length xs]"
    by (rule map_cong) (auto simp: nth_append)
  moreover have "x \<noteq> ''__proto__''"
    using snoc.prems by auto
  ultimately show ?case
    using IH fresh by (simp add: candidate_sums_snoc obj_set_def update_fresh)
qed

subsection \<open>Enumeration and sorting\<close>

lemma object_entries_mset: "mset (object_entries obj) = mset obj"
  by (simp add: object_entries_def case_prod_unfold)

lemma object_entries_set: "set (object_entries obj) = set obj"
  using object_entries_mset[of obj] by (rule mset_eq_setD)

lemma object_entries_plain:
  "\<forall>k \<in> fst ` set obj. \<not> is_array_index k \<Longrightarrow> object_entries obj = obj"
proof -
  assume a: "\<forall>k \<in> fst ` set obj. \<not> is_array_index k"
  then have "filter (\<lambda>(k, v). is_array_index k) obj = []"
    by (auto simp: filter_empty_conv)
  moreover from a have "filter (\<lambda>(k, v). \<not> is_array_index k) obj = obj"
    by (auto simp: filter_id_conv)
  ultimately show ?thesis by (simp add: object_entries_def)
qed

lemma insert_by_mset: "mset (insert_by cmp x ys) = add_mset x (mset ys)"
  by (induction ys) (auto split: jsnum.splits)

lemma js_sort_mset: "mset (js_sort cmp xs) = mset xs"
  by (induction xs) (auto simp: js_sort_def insert_by_mset)

lemma js_sort_set: "set (js_sort cmp xs) = set xs"
  using js_sort_mset[of cmp xs] by (rule mset_eq_setD)

lemma js_sub_num: "a \<noteq> NaN \<Longrightarrow> b \<noteq> NaN \<Longrightarrow> js_sub a b = Num (num_of a - num_of b)"
  by (cases a; cases b) auto

lemma insert_by_insort:
  "snd x \<noteq> NaN \<Longrightarrow> \<forall>e \<in> set ys. snd e \<noteq> NaN \<Longrightarrow>
   insert_by (\<lambda>x y. js_sub (snd x) (snd y)) x ys = insort_key (\<lambda>e. num_of (snd e)) x ys"
  by (induction ys) (auto simp: js_sub_num)

lemma js_sort_num:
  "\<forall>e \<in> set xs. snd e \<noteq> NaN \<Longrightarrow>
   js_sort (\<lambda>x y. js_sub (snd x) (snd y)) xs = sort_key (\<lambda>e. num_of (snd e)) xs"
proof (induction xs)
  case Nil
  then show ?case by (simp add: js_sort_def)
next
  case (Cons x xs)
  then have IH: "js_sort (\<lambda>x y. js_sub (snd x) (snd y)) xs = sort_key (\<lambda>e. num_of (snd e)) xs"
    by simp
  have "js_sort (\<lambda>x y. js_sub (snd x) (snd y)) (x # xs)
        = insert_by (\<lambda>x y. js_sub (snd x) (snd y)) x (sort_key (\<lambda>e. num_of (snd e)) xs)"
    using IH by (simp add: js_sort_def)
  also have "\<dots> = insort_key (\<lambda>e. num_of (snd e)) x (sort_key (\<lambda>e. num_of (snd e)) xs)"
    using Cons.prems by (intro insert_by_insort) auto
  finally show ?case by simp
qed

lemma sorted_candidates_mset: "mset (sorted_candidates obj) = mset (map fst obj)"
proof -
  have "mset (sorted_candidates obj)
        = image_mset fst (mset (js_sort (\<lambda>x y. js_sub (snd x) (snd y)) (object_entries obj)))"
    by (simp add: sorted_candidates_def)
  then show ?thesis by (simp add: js_sort_mset object_entries_mset)
qed

lemma sorted_candidates_set: "set (sorted_candidates obj) = fst ` set obj"
  using mset_eq_setD[OF sorted_candidates_mset[of obj]] by simp

lemma sorted_candidates_length: "length (sorted_candidates obj) = length obj"
  using mset_eq_length[OF sorted_candidates_mset[of obj]] by simp

lemma sorted_candidates_distinct:
  "distinct (sorted_candidates (candidate_sums dat cols))"
  using mset_eq_imp_distinct_iff[OF sorted_candidates_mset[of "candidate_sums dat cols"]]
    candidate_sums_distinct[of dat cols] by simp

lemma sorted_candidates_subset:
  "set (sorted_candidates (candidate_sums dat cols)) = set cols - {''__proto__''}"
  by (simp add: sorted_candidates_set candidate_sums_keys)

subsection \<open>Column sums\<close>

lemma row_at_reorder:
  "i < length srt \<Longrightarrow>
   row_at (reorder_row cols srt row) (int i) = row_at row (js_indexOf cols (srt ! i))"
  by (simp add: reorder_row_def row_at_def)

lemma foldl_reorder:
  "i < length srt \<Longrightarrow>
   foldl (\<lambda>sum row. add_cell sum (row_at row (int i))) a (map (reorder_row cols srt) dat)
   = foldl (\<lambda>sum row. add_cell sum (row_at row (js_indexOf cols (srt ! i)))) a dat"
  by (induction dat arbitrary: a) (simp_all add: row_at_reorder)

lemma column_sum_reorder:
  "i < length srt \<Longrightarrow>
   column_sum (map (reorder_row cols srt) dat) (int i) = column_sum dat (js_indexOf cols (srt ! i))"
  by (simp add: column_sum_def foldl_reorder)

lemma foldl_add_cell_NaN: "foldl (\<lambda>sum row. add_cell sum (g row)) NaN dat = NaN"
  by (induction dat) simp_all

lemma foldl_add_cell_Undefined:
  "row \<in> set dat \<Longrightarrow> g row = Undefined \<Longrightarrow> foldl (\<lambda>sum row. add_cell sum (g row)) a dat = NaN"
proof (induction dat arbitrary: a)
  case Nil
  then show ?case by simp
next
  case (Cons r rs)
  show ?case
  proof (cases "r = row")
    case True
    with Cons.prems have "add_cell a (g r) = NaN" by (cases a) simp_all
    then show ?thesis by (simp add: foldl_add_cell_NaN)
  next
    case False
    with Cons show ?thesis by simp
  qed
qed

lemma column_sum_Undefined:
  "row \<in> set dat \<Longrightarrow> row_at row j = Undefined \<Longrightarrow> column_sum dat j = NaN"
  unfolding column_sum_def by (rule foldl_add_cell_Undefined)



subsection \<open>Distinct labels\<close>


lemma candidate_sums_plain_keys:
  "distinct cols \<Longrightarrow> ''__proto__'' \<notin> set cols \<Longrightarrow> map fst (candidate_sums dat cols) = cols"
  by (simp add: candidate_sums_plain comp_def map_nth)

lemma sorted_candidates_perm:
  assumes "distinct cols" "''__proto__'' \<notin> set cols"
  shows "mset (sorted_candidates (candidate_sums dat cols)) = mset cols"
  using assms by (simp add: sorted_candidates_mset candidate_sums_plain_keys)

subsection \<open>Stability of the order\<close>


lemma score_of_entry:
  "distinct (map fst obj) \<Longrightarrow> e \<in> set obj \<Longrightarrow> score_of obj (fst e) = num_of (snd e)"
  by (cases e) (simp add: score_of_def)

lemma sorted_candidates_stable:
  assumes d: "distinct (map fst obj)"
    and plain: "\<forall>k \<in> fst ` set obj. \<not> is_array_index k"
    and num: "\<forall>e \<in> set obj. snd e \<noteq> NaN"
  shows "sorted (map (score_of obj) (sorted_candidates obj))"
    and "filter (\<lambda>c. score_of obj c = k) (sorted_candidates obj)
         = filter (\<lambda>c. score_of obj c = k) (map fst obj)"
proof -
  define g where "g = (\<lambda>e :: string \<times> jsnum. num_of (snd e))"
  define S where "S = sort_key g obj"
  have srt: "sorted_candidates obj = map fst S"
    using plain num
    by (simp add: sorted_candidates_def object_entries_plain js_sort_num S_def g_def)
  have sc: "\<And>e. e \<in> set obj \<Longrightarrow> score_of obj (fst e) = g e"
    using d by (simp add: score_of_entry g_def)
  have setS: "set S = set obj" by (simp add: S_def)
  have m: "map (score_of obj \<circ> fst) S = map g S"
    using sc setS by simp
  have "sorted (map g S)" by (simp add: S_def)
  then show "sorted (map (score_of obj) (sorted_candidates obj))"
    by (simp add: srt m)
  have f1: "filter (\<lambda>e. score_of obj (fst e) = k) S = filter (\<lambda>e. g e = k) S"
    by (rule filter_cong) (simp_all add: sc setS)
  have f2: "filter (\<lambda>e. score_of obj (fst e) = k) obj = filter (\<lambda>e. g e = k) obj"
    by (rule filter_cong) (simp_all add: sc)
  have "filter (\<lambda>c. score_of obj c = k) (map fst S)
        = map fst (filter (\<lambda>e. score_of obj (fst e) = k) S)"
    by (simp add: filter_map comp_def)
  also have "\<dots> = map fst (filter (\<lambda>e. g e = k) S)"
    by (simp only: f1)
  also have "\<dots> = map fst (filter (\<lambda>e. g e = k) obj)"
    by (simp add: S_def sort_key_stable)
  also have "\<dots> = map fst (filter (\<lambda>e. score_of obj (fst e) = k) obj)"
    by (simp only: f2)
  also have "\<dots> = filter (\<lambda>c. score_of obj c = k) (map fst obj)"
    by (simp add: filter_map comp_def)
  finally show "filter (\<lambda>c. score_of obj c = k) (sorted_candidates obj)
         = filter (\<lambda>c. score_of obj c = k) (map fst obj)"
    by (simp add: srt)
qed

subsection \<open>Scores by position\<close>

lemma candidate_sums_first:
  assumes "distinct cols" "c \<in> set cols" "c \<noteq> ''__proto__''"
  shows "map_of (candidate_sums dat cols) c = Some (column_sum dat (js_indexOf cols c))"
proof -
  from js_indexOf_in[OF assms(2)] obtain j where
    j: "js_indexOf cols c = int j" "j < length cols" "cols ! j = c"
    by (metis nat_0_le nat_less_iff)
  have "\<forall>k. j < k \<and> k < length cols \<longrightarrow> cols ! k \<noteq> c"
    using assms(1) j by (auto simp: nth_eq_iff_index_eq)
  from candidate_sums_last[OF j(2) j(3) assms(3) this] j(1) show ?thesis by simp
qed

lemma candidate_sums_absent:
  "c \<notin> set cols \<or> c = ''__proto__'' \<Longrightarrow> map_of (candidate_sums dat cols) c = None"
  by (auto simp: map_of_eq_None_iff candidate_sums_keys)

subsection \<open>Characters\<close>



lemma hex_digit_code: "is_radix_digit 16 c \<longleftrightarrow> 
   (48 \<le> (of_char c :: int) \<and> (of_char c :: int) \<le> 57) \<or> (97 \<le> (of_char c :: int) \<and> (of_char c :: int) \<le> 102)
   \<or> (65 \<le> (of_char c :: int) \<and> (of_char c :: int) \<le> 70)"
  by (auto simp: is_radix_digit_def digit_of_def Let_def)

lemma char_eq_code: "c = d \<longleftrightarrow> (of_char c :: int) = of_char d"
  by simp



lemma hexdigit_not_x: "is_radix_digit 16 c \<Longrightarrow> c \<noteq> CHR ''x'' \<and> c \<noteq> CHR ''X''"
  by (auto simp: hex_digit_code char_eq_code)


lemma js_trim_blank: "list_all is_js_space s \<Longrightarrow> js_trim s = []"
proof -
  assume "list_all is_js_space s"
  then have "dropWhile is_js_space s = []" by (simp add: list_all_iff)
  then show ?thesis by (simp add: js_trim_def del: dropWhile_eq_Nil_conv)
qed

subsection \<open>Rows and blank input\<close>

lemma parse_row_length: "length (parse_row values) = length values - 3"
  by (simp add: parse_row_def)

lemma row_at_beyond: "int (length row) \<le> j \<Longrightarrow> row_at row j = Undefined"
  by (simp add: row_at_def)

lemma parseCSV_eq:
  "js_split (CHR 0x0A) (js_trim csv) = header # rest \<Longrightarrow>
   parseCSV csv = Inr \<lparr> data = map (\<lambda>l. parse_row (js_split (CHR '','') l)) rest,
                         challengeLabels = map (\<lambda>l. hd (js_split (CHR '','') l)) rest,
                         candidateCols = candidate_columns (js_split (CHR '','') header) \<rparr>"
  by (simp add: parseCSV_def Let_def comp_def)

lemma main_report_trim: "js_trim a = js_trim b \<Longrightarrow> main_report a = main_report b"
  by (simp add: main_report_def parseCSV_def)

subsection \<open>Totals\<close>

lemma update_set_subset: "set (AList.update k v al) \<subseteq> insert (k, v) (set al)"
  by (induction al) auto

lemma candidate_sums_values:
  "e \<in> set (candidate_sums dat cols) \<Longrightarrow> \<exists>i. snd e = column_sum dat (int i)"
proof (induction cols rule: rev_induct)
  case Nil
  then show ?case by (simp add: candidate_sums_Nil)
next
  case (snoc x xs)
  show ?case
  proof (cases "x = ''__proto__''")
    case True
    with snoc show ?thesis by (simp add: candidate_sums_snoc obj_set_def)
  next
    case False
    with snoc.prems have "e \<in> insert (x, column_sum dat (int (length xs))) (set (candidate_sums dat xs))"
      using update_set_subset[of x "column_sum dat (int (length xs))" "candidate_sums dat xs"]
      by (auto simp: candidate_sums_snoc obj_set_def)
    then show ?thesis
    proof
      assume "e = (x, column_sum dat (int (length xs)))"
      then have "snd e = column_sum dat (int (length xs))" by simp
      then show ?thesis by blast
    next
      assume "e \<in> set (candidate_sums dat xs)"
      then show ?thesis by (rule snoc.IH)
    qed
  qed
qed

lemma foldl_js_add_zero: "\<forall>v \<in> set vs. v = Num 0 \<Longrightarrow> foldl js_add (Num 0) vs = Num 0"
  by (induction vs) (simp_all add: to_double_zero)


lemma total_solutions_empty:
  assumes "dat = [] \<or> cols = []"
  shows "total_solutions (candidate_sums dat cols) = Num 0"
proof -
  have "\<forall>e \<in> set (candidate_sums dat cols). snd e = Num 0"
  proof
    fix e assume e: "e \<in> set (candidate_sums dat cols)"
    show "snd e = Num 0"
    proof (cases "cols = []")
      case True
      with e show ?thesis by (simp add: candidate_sums_Nil)
    next
      case False
      with assms have "dat = []" by simp
      with candidate_sums_values[OF e] show ?thesis by (auto simp: column_sum_def)
    qed
  qed
  then have "\<forall>v \<in> set (map snd (object_entries (candidate_sums dat cols))). v = Num 0"
    by (simp add: object_entries_set)
  then show ?thesis unfolding total_solutions_def by (rule foldl_js_add_zero)
qed

subsection \<open>\<open>parseInt\<close> on digit runs\<close>








subsection \<open>Decimal text\<close>






subsection \<open>Cells\<close>


subsection \<open>Integer prefixes\<close>




subsection \<open>Exact scores\<close>






subsection \<open>Evaluated runs\<close>

lemma run_sample: "sortCandidatesByPerformance [[Val 1, Val 0, Val 1], [Val 0, Val 0, Val 1]] [''A'', ''B'', ''C'']
  = \<lparr> sortedData = [[Val 0, Val 1, Val 1], [Val 0, Val 0, Val 1]], sortedCandidates = [''B'', ''A'', ''C''],
      candidateSums = [(''A'', Num 1), (''B'', Num 0), (''C'', Num 2)] \<rparr>"
  by code_simp

lemma run_tie: "sortCandidatesByPerformance [[Val 1, Val 1]] [''B'', ''A'']
  = \<lparr> sortedData = [[Val 1, Val 1]], sortedCandidates = [''B'', ''A''],
      candidateSums = [(''B'', Num 1), (''A'', Num 1)] \<rparr>"
  by code_simp

lemma run_sample_reordered: "sortCandidatesByPerformance [[Val 0, Val 1, Val 1], [Val 0, Val 0, Val 1]] [''B'', ''A'', ''C'']
  = \<lparr> sortedData = [[Val 0, Val 1, Val 1], [Val 0, Val 0, Val 1]], sortedCandidates = [''B'', ''A'', ''C''],
      candidateSums = [(''B'', Num 0), (''A'', Num 1), (''C'', Num 2)] \<rparr>"
  by code_simp

lemma parse_ragged: "parseCSV ragged_csv = Inr \<lparr> data = [[Val 1]], challengeLabels = [''x''],
       candidateCols = [''A'', ''B''] \<rparr>"
  by code_simp

lemma lines_ragged: "js_split (CHR 0x0A) (js_trim ragged_csv) = [''Challenge,Created_At,Difficulty,A,B'', ''x,t,d,1'']"
  by code_simp

lemma fields_ragged: "js_split (CHR '','') ''x,t,d,1'' = [''x'', ''t'', ''d'', ''1'']"
  by code_simp

lemma parse_empty: "parseCSV [] = Inr \<lparr> data = [], challengeLabels = [], candidateCols = [[]] \<rparr>"
  by code_simp

lemma report_empty: "main_report [] =
      Inr \<lparr> heatmapData = [], rowLabels = [], candidateLabels = [[]], scores = [([], Num 0)],
            totalChallenges = 0, totalCandidates = 1, totalSolutions = Num 0,
            overallRate = Some ''NaN'' \<rparr>"
  by code_simp

lemma parse_header_only: "parseCSV header_only_csv
    = Inr \<lparr> data = [], challengeLabels = [], candidateCols = [''A'', ''B''] \<rparr>"
  by code_simp



section \<open>The claims\<close>

subsection \<open>Labels and values are reordered together\<close>




subsection \<open>Equal scores keep the header order\<close>

text \<open>
  C2. The columns are sorted by score alone, and the sort is stable. For pairwise
  distinct labels, none of them an array index or \<open>__proto__\<close>, and numeric scores,
  the sorted labels are a rearrangement of the header labels in ascending score order
  in which the labels of any one score stand in their header order. The label text
  takes no part in the order.
\<close>

theorem ties_keep_header_order:
  assumes "distinct cols" and "''__proto__'' \<notin> set cols"
    and "\<forall>c \<in> set cols. \<not> is_array_index c"
    and "\<forall>e \<in> set (candidateSums (sortCandidatesByPerformance dat cols)). snd e \<noteq> NaN"
  shows "let r = sortCandidatesByPerformance dat cols;
             score = score_of (candidateSums r)
         in mset (sortedCandidates r) = mset cols
            \<and> sorted (map score (sortedCandidates r))
            \<and> (\<forall>k. filter (\<lambda>c. score c = k) (sortedCandidates r) = filter (\<lambda>c. score c = k) cols)"
proof -
  define obj where "obj = candidate_sums dat cols"
  have keys: "map fst obj = cols"
    using assms(1,2) by (simp add: obj_def candidate_sums_plain_keys)
  then have d: "distinct (map fst obj)" using assms(1) by simp
  have plain: "\<forall>k \<in> fst ` set obj. \<not> is_array_index k"
    using assms(3) keys by (metis list.set_map)
  have num: "\<forall>e \<in> set obj. snd e \<noteq> NaN"
    using assms(4) by (simp add: sortCandidatesByPerformance_def Let_def obj_def)
  have "mset (sorted_candidates obj) = mset cols"
    using assms(1,2) by (simp add: obj_def sorted_candidates_perm)
  moreover note sorted_candidates_stable(1)[OF d plain num]
  moreover have "\<forall>k. filter (\<lambda>c. score_of obj c = k) (sorted_candidates obj)
         = filter (\<lambda>c. score_of obj c = k) cols"
    using sorted_candidates_stable(2)[OF d plain num] keys by simp
  ultimately show ?thesis
    by (simp add: sortCandidatesByPerformance_def Let_def obj_def)
qed

text \<open>Header \<open>B,A\<close>, both columns scoring 1.\<close>

theorem ties_keep_header_order_witness:
  "distinct [''B'', ''A''] \<and> ''__proto__'' \<notin> set [''B'', ''A'']
   \<and> \<not> is_array_index ''B'' \<and> \<not> is_array_index ''A''
   \<and> candidateSums (sortCandidatesByPerformance [[Val 1, Val 1]] [''B'', ''A''])
       = [(''B'', Num 1), (''A'', Num 1)]
   \<and> sortedCandidates (sortCandidatesByPerformance [[Val 1, Val 1]] [''B'', ''A'']) = [''B'', ''A'']
   \<and> filter (\<lambda>c. score_of [(''B'', Num 1), (''A'', Num 1)] c = 1) 
        (sortedCandidates (sortCandidatesByPerformance [[Val 1, Val 1]] [''B'', ''A''])) = [''B'', ''A'']"
proof -
  have h1: "distinct [''B'', ''A'']" by simp
  have h2: "''__proto__'' \<notin> set [''B'', ''A'']" by simp
  have h3: "\<forall>c \<in> set [''B'', ''A'']. \<not> is_array_index c" by code_simp
  have h4: "\<forall>e \<in> set (candidateSums (sortCandidatesByPerformance [[Val 1, Val 1]] [''B'', ''A''])). snd e \<noteq> NaN"
    by (simp add: run_tie)
  from ties_keep_header_order[OF h1 h2 h3 h4] h3 show ?thesis
    by (simp add: run_tie Let_def score_of_def)
qed

text \<open>Header \<open>B,A\<close>, both scoring 1: the output order is B, A, not A, B.\<close>

theorem ties_keep_header_order_counterexample:
  "main_report tie_csv =
      Inr \<lparr> heatmapData = [[Val 1, Val 1]], rowLabels = [''x''], candidateLabels = [''B'', ''A''],
            scores = [(''B'', Num 1), (''A'', Num 1)], totalChallenges = 1, totalCandidates = 2,
            totalSolutions = Num 2, overallRate = Some ''100.0'' \<rparr>"
  by code_simp

subsection \<open>Ragged data lines\<close>

text \<open>
  C3. \<open>parseCSV\<close> never fails. A data line gives a row with one value for each of its
  fields from the fourth on, so a line with fewer fields than the header gives a
  shorter row: nothing is padded. Reading such a row beyond its end gives
  \<open>undefined\<close>, and the sum of a column that reaches beyond the end of some row is
  \<open>NaN\<close>.
\<close>

theorem ragged_rows_stay_short:
  "\<exists>p. parseCSV csv = Inr p
     \<and> length (data p) = length (js_split (CHR 0x0A) (js_trim csv)) - 1
     \<and> (\<forall>k < length (data p).
           length (data p ! k)
             = length (js_split (CHR '','') (js_split (CHR 0x0A) (js_trim csv) ! Suc k)) - 3)
     \<and> (\<forall>row \<in> set (data p). \<forall>j. int (length row) \<le> j \<longrightarrow>
           row_at row j = Undefined \<and> column_sum (data p) j = NaN)"
proof -
  obtain header rest where l: "js_split (CHR 0x0A) (js_trim csv) = header # rest"
    using js_split_nonempty[of "CHR 0x0A" "js_trim csv"] by (cases "js_split (CHR 0x0A) (js_trim csv)") auto
  define p where "p = \<lparr> data = map (\<lambda>l. parse_row (js_split (CHR '','') l)) rest,
                         challengeLabels = map (\<lambda>l. hd (js_split (CHR '','') l)) rest,
                         candidateCols = candidate_columns (js_split (CHR '','') header) \<rparr>"
  have 1: "parseCSV csv = Inr p" unfolding p_def by (rule parseCSV_eq[OF l])
  have 2: "length (data p) = length (js_split (CHR 0x0A) (js_trim csv)) - 1"
    by (simp add: p_def l)
  have 3: "\<forall>k < length (data p). length (data p ! k)
             = length (js_split (CHR '','') (js_split (CHR 0x0A) (js_trim csv) ! Suc k)) - 3"
    by (simp add: p_def l parse_row_length)
  have 4: "\<forall>row \<in> set (data p). \<forall>j. int (length row) \<le> j \<longrightarrow>
           row_at row j = Undefined \<and> column_sum (data p) j = NaN"
    using row_at_beyond column_sum_Undefined by blast
  from 1 2 3 4 show ?thesis by blast
qed

text \<open>A header with two candidates and a data line with one value.\<close>

theorem ragged_rows_stay_short_witness:
  "parseCSV ragged_csv = Inr \<lparr> data = [[Val 1]], challengeLabels = [''x''], candidateCols = [''A'', ''B''] \<rparr>
   \<and> length [Val 1] = length [''x'', ''t'', ''d'', ''1''] - 3
   \<and> int (length [Val 1]) \<le> 1
   \<and> row_at [Val 1] 1 = Undefined
   \<and> column_sum [[Val 1]] 1 = NaN"
  using ragged_rows_stay_short[of ragged_csv]
  by (simp add: parse_ragged lines_ragged fields_ragged)

text \<open>The same input: the row has one value for two labels, and the score of \<open>B\<close> is \<open>NaN\<close>, not 0.\<close>

theorem ragged_rows_not_padded_counterexample:
  "parseCSV ragged_csv = Inr \<lparr> data = [[Val 1]], challengeLabels = [''x''], candidateCols = [''A'', ''B''] \<rparr>
   \<and> length [Val 1] \<noteq> length [''A'', ''B'']
   \<and> row_at [Val 1] 1 = Undefined
   \<and> candidateSums (sortCandidatesByPerformance [[Val 1]] [''A'', ''B''])
       = [(''A'', Num 1), (''B'', NaN)]"
  by code_simp

subsection \<open>Empty and blank input\<close>

text \<open>
  C4. For an input text of white space only (the empty text included) \<open>parseCSV\<close>
  does not fail: it returns no rows, no row labels and one candidate label, the empty
  string. \<open>main\<close> goes on to a report with the score 0 for that label and the rate
  text \<open>NaN\<close>.
\<close>

theorem blank_input_is_parsed:
  assumes "list_all is_js_space csv"
  shows "parseCSV csv = Inr \<lparr> data = [], challengeLabels = [], candidateCols = [[]] \<rparr>
     \<and> main_report csv =
         Inr \<lparr> heatmapData = [], rowLabels = [], candidateLabels = [[]], scores = [([], Num 0)],
               totalChallenges = 0, totalCandidates = 1, totalSolutions = Num 0,
               overallRate = Some ''NaN'' \<rparr>"
proof -
  have t: "js_trim csv = js_trim []" using assms by (simp add: js_trim_blank)
  then have "parseCSV csv = parseCSV []" by (simp add: parseCSV_def)
  moreover have "main_report csv = main_report []" using t by (rule main_report_trim)
  ultimately show ?thesis by (simp add: parse_empty report_empty)
qed

text \<open>A blank and a line feed.\<close>

theorem blank_input_is_parsed_witness:
  "list_all is_js_space [CHR 0x20, CHR 0x0A]
   \<and> parseCSV [CHR 0x20, CHR 0x0A] = Inr \<lparr> data = [], challengeLabels = [], candidateCols = [[]] \<rparr>"
proof -
  have h: "list_all is_js_space [CHR 0x20, CHR 0x0A]" by (simp add: is_js_space_def)
  from blank_input_is_parsed[OF h] h show ?thesis by simp
qed

text \<open>The empty text is parsed, not rejected.\<close>

theorem empty_input_no_error_counterexample:
  "parseCSV [] = Inr \<lparr> data = [], challengeLabels = [], candidateCols = [[]] \<rparr>"
  by code_simp

subsection \<open>The rate of an empty matrix\<close>

text \<open>
  C5. When the parsed matrix has no rows or no candidate columns, the total of the
  scores is 0, the rate \<open>0 / 0 * 100\<close> is \<open>NaN\<close>, and the rate text is \<open>NaN\<close>.
\<close>

theorem empty_matrix_rate_is_NaN:
  assumes "parseCSV csv = Inr p" and "data p = [] \<or> candidateCols p = []"
  shows "\<exists>rep. main_report csv = Inr rep
           \<and> totalSolutions rep = Num 0
           \<and> success_rate (totalSolutions rep) (totalChallenges rep) (totalCandidates rep) = RNaN
           \<and> overallRate rep = Some ''NaN''"
proof -
  have z: "length (data p) * length (candidateCols p) = 0" using assms(2) by auto
  have t: "total_solutions (candidate_sums (data p) (candidateCols p)) = Num 0"
    using assms(2) by (rule total_solutions_empty)
  have r: "success_rate (Num 0) (length (data p)) (length (candidateCols p)) = RNaN"
    using z by (simp add: success_rate_def)
  show ?thesis
    using assms(1) t r
    by (simp add: main_report_def Let_def sortCandidatesByPerformance_def overallSuccessRate_def
        toFixed1_def)
qed

text \<open>A header line alone.\<close>

theorem empty_matrix_rate_is_NaN_witness:
  "parseCSV header_only_csv = Inr \<lparr> data = [], challengeLabels = [], candidateCols = [''A'', ''B''] \<rparr>
   \<and> (\<exists>rep. main_report header_only_csv = Inr rep \<and> overallRate rep = Some ''NaN'')"
proof -
  have h: "data \<lparr> data = [], challengeLabels = [], candidateCols = [''A'', ''B''] \<rparr> = []
           \<or> candidateCols \<lparr> data = [], challengeLabels = [], candidateCols = [''A'', ''B''] \<rparr> = []"
    by simp
  from empty_matrix_rate_is_NaN[OF parse_header_only h] show ?thesis
    by (auto simp: parse_header_only)
qed

text \<open>A header line alone: the rate text is \<open>NaN\<close>, not 0.\<close>

theorem zero_rows_rate_counterexample:
  "main_report header_only_csv =
      Inr \<lparr> heatmapData = [], rowLabels = [], candidateLabels = [''A'', ''B''],
            scores = [(''A'', Num 0), (''B'', Num 0)],
            totalChallenges = 0, totalCandidates = 2, totalSolutions = Num 0,
            overallRate = Some ''NaN'' \<rparr>"
  by code_simp

subsection \<open>The sample scenario\<close>

text \<open>
  C6. On the header \<open>Challenge,Created_At,Difficulty,A,B,C\<close> with the data lines
  \<open>x,t,d,1,0,1\<close> and \<open>y,t,d,0,0,1\<close> the scores are A=1, B=0, C=2, the ascending
  order of the labels is B, A, C, the reordered rows are [0,1,1] and [0,0,1], and the
  statistics are 2 rows, 3 columns, 3 solved cells and the rate 50.0.
\<close>

theorem sample_scenario:
  "main_report sample_csv =
     Inr \<lparr> heatmapData = [[Val 0, Val 1, Val 1], [Val 0, Val 0, Val 1]],
           rowLabels = [''x'', ''y''],
           candidateLabels = [''B'', ''A'', ''C''],
           scores = [(''A'', Num 1), (''B'', Num 0), (''C'', Num 2)],
           totalChallenges = 2,
           totalCandidates = 3,
           totalSolutions = Num 3,
           overallRate = Some ''50.0'' \<rparr>"
  by code_simp

subsection \<open>Scores do not depend on the column order\<close>

text \<open>
  C7. When the candidate labels are pairwise distinct, summing the columns of the
  reordered matrix under the reordered labels gives every label the score it has from
  the original matrix and labels: the two score objects are equal as maps. The
  reordered labels are the original ones without \<open>__proto__\<close>.
\<close>

theorem scores_independent_of_order:
  assumes "distinct cols"
  shows "let r = sortCandidatesByPerformance dat cols;
             r' = sortCandidatesByPerformance (sortedData r) (sortedCandidates r)
         in map_of (candidateSums r') = map_of (candidateSums r)
            \<and> set (sortedCandidates r) = set cols - {''__proto__''}"
proof -
  define srt where "srt = sorted_candidates (candidate_sums dat cols)"
  define dat' where "dat' = map (reorder_row cols srt) dat"
  have dsrt: "distinct srt" by (simp add: srt_def sorted_candidates_distinct)
  have ssrt: "set srt = set cols - {''__proto__''}" by (simp add: srt_def sorted_candidates_subset)
  have "map_of (candidate_sums dat' srt) c = map_of (candidate_sums dat cols) c" for c
  proof (cases "c \<in> set srt")
    case True
    then obtain i where i: "i < length srt" "srt ! i = c" by (auto simp: in_set_conv_nth)
    from True ssrt have c: "c \<in> set cols" "c \<noteq> ''__proto__''" by auto
    have "js_indexOf srt c = int i"
      using js_indexOf_distinct[OF dsrt i(1)] i(2) by simp
    then have "map_of (candidate_sums dat' srt) c = Some (column_sum dat' (int i))"
      using candidate_sums_first[OF dsrt True c(2), of dat'] by simp
    also have "\<dots> = Some (column_sum dat (js_indexOf cols c))"
      using column_sum_reorder[OF i(1), of cols dat] i(2) by (simp add: dat'_def)
    also have "\<dots> = map_of (candidate_sums dat cols) c"
      using candidate_sums_first[OF assms c] by simp
    finally show ?thesis .
  next
    case False
    then have "c \<notin> set cols \<or> c = ''__proto__''" using ssrt by auto
    with False show ?thesis by (simp add: candidate_sums_absent)
  qed
  then have "map_of (candidate_sums dat' srt) = map_of (candidate_sums dat cols)" by (rule ext)
  with ssrt show ?thesis
    by (simp add: sortCandidatesByPerformance_def Let_def srt_def dat'_def)
qed

text \<open>The sample matrix and its reordering.\<close>

theorem scores_independent_of_order_witness:
  "distinct [''A'', ''B'', ''C'']
   \<and> map_of [(''B'', Num 0), (''A'', Num 1), (''C'', Num 2)]
       = map_of [(''A'', Num 1), (''B'', Num 0), (''C'', Num 2)]
   \<and> candidateSums (sortCandidatesByPerformance [[Val 1, Val 0, Val 1], [Val 0, Val 0, Val 1]] [''A'', ''B'', ''C''])
       = [(''A'', Num 1), (''B'', Num 0), (''C'', Num 2)]
   \<and> candidateSums (sortCandidatesByPerformance [[Val 0, Val 1, Val 1], [Val 0, Val 0, Val 1]] [''B'', ''A'', ''C''])
       = [(''B'', Num 0), (''A'', Num 1), (''C'', Num 2)]"
proof -
  have h: "distinct [''A'', ''B'', ''C'']" by simp
  from scores_independent_of_order[OF h, of "[[Val 1, Val 0, Val 1], [Val 0, Val 0, Val 1]]"] h
  show ?thesis by (simp add: run_sample run_sample_reordered Let_def del: map_of.simps)
qed

text \<open>Two columns labelled \<open>A\<close> with the values 1 and 0: the score is 0 before and 1 after the reordering.\<close>

theorem scores_independent_of_order_counterexample:
  "sortCandidatesByPerformance [[Val 1, Val 0]] [''A'', ''A'']
       = \<lparr> sortedData = [[Val 1]], sortedCandidates = [''A''], candidateSums = [(''A'', Num 0)] \<rparr>
   \<and> candidateSums (sortCandidatesByPerformance [[Val 1]] [''A'']) = [(''A'', Num 1)]"
  by code_simp

subsection \<open>Candidate labels and row values\<close>




subsection \<open>Cell values are not clamped\<close>




subsection \<open>Duplicate candidate labels\<close>




end
